theory Spec2Isabelle
  imports Complex_Main "HOL-Library.Word"
begin

unbundle bit_operations_syntax

section \<open>Python strings\<close>

text \<open>
  A Python \<open>str\<close> is a sequence of code points. The model covers the strings whose code
  points are below 256 and reads a \<^typ>\<open>char\<close> as such a code point. On this range
  \<open>str.isspace\<close>, which decides what \<open>str.strip()\<close>, \<open>str.split()\<close> and the
  regular expression class \<open>\s\<close> treat as whitespace, holds for the twelve code points
  below, and \<open>str.lower()\<close> moves \<open>A..Z\<close> and the upper-case letters of Latin-1
  (\<open>0xC0..0xDE\<close> without the multiplication sign \<open>0xD7\<close>) up by 32.
\<close>

definition is_space :: "char \<Rightarrow> bool" where
  "is_space c \<longleftrightarrow> c \<in> set [CHR 0x09, CHR 0x0A, CHR 0x0B, CHR 0x0C, CHR 0x0D,
                          CHR 0x1C, CHR 0x1D, CHR 0x1E, CHR 0x1F, CHR 0x20, CHR 0x85, CHR 0xA0]"

definition upper_chars :: "char list" where
  "upper_chars = ''ABCDEFGHIJKLMNOPQRSTUVWXYZ'' @
     [CHR 0xC0, CHR 0xC1, CHR 0xC2, CHR 0xC3, CHR 0xC4, CHR 0xC5, CHR 0xC6, CHR 0xC7,
      CHR 0xC8, CHR 0xC9, CHR 0xCA, CHR 0xCB, CHR 0xCC, CHR 0xCD, CHR 0xCE, CHR 0xCF,
      CHR 0xD0, CHR 0xD1, CHR 0xD2, CHR 0xD3, CHR 0xD4, CHR 0xD5, CHR 0xD6,
      CHR 0xD8, CHR 0xD9, CHR 0xDA, CHR 0xDB, CHR 0xDC, CHR 0xDD, CHR 0xDE]"

definition lower_chars :: "char list" where
  "lower_chars = ''abcdefghijklmnopqrstuvwxyz'' @
     [CHR 0xE0, CHR 0xE1, CHR 0xE2, CHR 0xE3, CHR 0xE4, CHR 0xE5, CHR 0xE6, CHR 0xE7,
      CHR 0xE8, CHR 0xE9, CHR 0xEA, CHR 0xEB, CHR 0xEC, CHR 0xED, CHR 0xEE, CHR 0xEF,
      CHR 0xF0, CHR 0xF1, CHR 0xF2, CHR 0xF3, CHR 0xF4, CHR 0xF5, CHR 0xF6,
      CHR 0xF8, CHR 0xF9, CHR 0xFA, CHR 0xFB, CHR 0xFC, CHR 0xFD, CHR 0xFE]"

definition py_lower :: "char \<Rightarrow> char" where
  "py_lower c = (case map_of (zip upper_chars lower_chars) c of Some d \<Rightarrow> d | None \<Rightarrow> c)"

text \<open>\<open>s.strip()\<close>: whitespace removed at both ends.\<close>

definition py_strip :: "string \<Rightarrow> string" where
  "py_strip s = rev (dropWhile is_space (rev (dropWhile is_space s)))"

text \<open>\<open>re.sub(r"\s+", " ", s)\<close>: every maximal run of whitespace becomes one space.\<close>

function re_sub_ws :: "string \<Rightarrow> string" where
  "re_sub_ws [] = []"
| "re_sub_ws (c # cs) =
     (if is_space c then CHR '' '' # re_sub_ws (dropWhile is_space cs)
      else c # re_sub_ws cs)"
  by pat_completeness auto
termination
  by (relation "measure length") (auto simp: length_dropWhile_le less_Suc_eq_le)

text \<open>
  \<open>s.split()\<close> without a separator: the maximal runs of characters that are not
  whitespace, in order; no empty token.
\<close>

function py_split :: "string \<Rightarrow> string list" where
  "py_split s =
     (let t = dropWhile is_space s
      in if t = [] then []
         else takeWhile (\<lambda>c. \<not> is_space c) t # py_split (dropWhile (\<lambda>c. \<not> is_space c) t))"
  by pat_completeness auto
termination
proof (relation "measure length")
  fix s t :: string
  assume t: "t = dropWhile is_space s" and ne: "t \<noteq> []"
  have "length (dropWhile (\<lambda>c. \<not> is_space c) t) < length t"
  proof (cases t)
    case Nil
    with ne show ?thesis by simp
  next
    case (Cons a as)
    with t have "\<not> is_space a"
      by (metis hd_dropWhile list.sel(1) ne)
    with Cons show ?thesis
      by (simp add: length_dropWhile_le less_Suc_eq_le)
  qed
  also have "length t \<le> length s"
    unfolding t by (rule length_dropWhile_le)
  finally show "(dropWhile (\<lambda>c. \<not> is_space c) t, s) \<in> measure length"
    by simp
qed simp

declare py_split.simps [simp del]

text \<open>
  \<open>normalize_prompt\<close> (lines 125-128). The argument is a \<open>str\<close> at every call of the
  program, so \<open>p or ""\<close> is \<open>p\<close>.
\<close>

definition normalize_prompt :: "string \<Rightarrow> string" where
  "normalize_prompt p = re_sub_ws (map py_lower (py_strip p))"

section \<open>SHA-256\<close>

text \<open>
  \<open>hashlib.sha256(b).hexdigest()\<close>, after FIPS 180-4: the message is padded to a
  multiple of 64 bytes, every block of sixteen big-endian words is expanded to 64 words and
  run through 64 rounds, and the eight words of the final state are printed as 64
  lower-case hexadecimal digits.
\<close>

type_synonym u8 = "8 word"
type_synonym u32 = "32 word"

definition rotr :: "nat \<Rightarrow> u32 \<Rightarrow> u32" where
  "rotr n x = drop_bit n x OR push_bit (32 - n) x"

text \<open>The 64 round constants of section 4.2.2 of the standard, in decimal.\<close>

definition sha_k :: "u32 list" where
  "sha_k = [
   1116352408, 1899447441, 3049323471, 3921009573, 961987163, 1508970993,
   2453635748, 2870763221, 3624381080, 310598401, 607225278, 1426881987,
   1925078388, 2162078206, 2614888103, 3248222580, 3835390401, 4022224774,
   264347078, 604807628, 770255983, 1249150122, 1555081692, 1996064986,
   2554220882, 2821834349, 2952996808, 3210313671, 3336571891, 3584528711,
   113926993, 338241895, 666307205, 773529912, 1294757372, 1396182291,
   1695183700, 1986661051, 2177026350, 2456956037, 2730485921, 2820302411,
   3259730800, 3345764771, 3516065817, 3600352804, 4094571909, 275423344,
   430227734, 506948616, 659060556, 883997877, 958139571, 1322822218,
   1537002063, 1747873779, 1955562222, 2024104815, 2227730452, 2361852424,
   2428436474, 2756734187, 3204031479, 3329325298]"

definition sha_init :: "u32 list" where
  "sha_init = [0x6a09e667, 0xbb67ae85, 0x3c6ef372, 0xa54ff53a,
               0x510e527f, 0x9b05688c, 0x1f83d9ab, 0x5be0cd19]"

definition small_sigma0 :: "u32 \<Rightarrow> u32" where
  "small_sigma0 x = rotr 7 x XOR rotr 18 x XOR drop_bit 3 x"

definition small_sigma1 :: "u32 \<Rightarrow> u32" where
  "small_sigma1 x = rotr 17 x XOR rotr 19 x XOR drop_bit 10 x"

definition big_sigma0 :: "u32 \<Rightarrow> u32" where
  "big_sigma0 x = rotr 2 x XOR rotr 13 x XOR rotr 22 x"

definition big_sigma1 :: "u32 \<Rightarrow> u32" where
  "big_sigma1 x = rotr 6 x XOR rotr 11 x XOR rotr 25 x"

definition ch :: "u32 \<Rightarrow> u32 \<Rightarrow> u32 \<Rightarrow> u32" where
  "ch x y z = (x AND y) XOR (NOT x AND z)"

definition maj :: "u32 \<Rightarrow> u32 \<Rightarrow> u32 \<Rightarrow> u32" where
  "maj x y z = (x AND y) XOR (x AND z) XOR (y AND z)"

text \<open>The message schedule; \<open>ws\<close> holds the words computed so far, the latest first.\<close>

fun schedule :: "nat \<Rightarrow> u32 list \<Rightarrow> u32 list" where
  "schedule 0 ws = ws"
| "schedule (Suc n) ws =
     schedule n ((small_sigma1 (ws ! 1) + ws ! 6 + small_sigma0 (ws ! 14) + ws ! 15) # ws)"

fun sha_round :: "u32 list \<Rightarrow> u32 \<times> u32 \<Rightarrow> u32 list" where
  "sha_round [a, b, c, d, e, f, g, h] (k, w) =
     (let t1 = h + big_sigma1 e + ch e f g + k + w;
          t2 = big_sigma0 a + maj a b c
      in [t1 + t2, a, b, c, d + t1, e, f, g])"
| "sha_round s _ = s"

definition be32 :: "u8 list \<Rightarrow> u32" where
  "be32 bs = foldl (\<lambda>acc b. push_bit 8 acc OR ucast b) 0 bs"

fun chunks :: "nat \<Rightarrow> 'a list \<Rightarrow> 'a list list" where
  "chunks n [] = []"
| "chunks n xs = (if n = 0 then [xs] else take n xs # chunks n (drop n xs))"

definition compress :: "u32 list \<Rightarrow> u8 list \<Rightarrow> u32 list" where
  "compress s block =
     (let w16 = map be32 (chunks 4 block);
          w64 = rev (schedule 48 (rev w16));
          s' = foldl sha_round s (zip sha_k w64)
      in map2 (+) s s')"

definition sha_pad :: "u8 list \<Rightarrow> u8 list" where
  "sha_pad m =
     (let l = length m;
          z = (55 + 64 - l mod 64) mod 64;
          bits = (word_of_nat (8 * l) :: 64 word)
      in m @ [0x80] @ replicate z 0 @ map (\<lambda>i. ucast (drop_bit (8 * (7 - i)) bits)) [0..<8])"

definition hex_digit :: "nat \<Rightarrow> char" where
  "hex_digit n = ''0123456789abcdef'' ! n"

definition hex32 :: "u32 \<Rightarrow> string" where
  "hex32 w = map (\<lambda>i. hex_digit (unat (drop_bit (4 * (7 - i)) w AND 15))) [0..<8]"

definition sha256_hexdigest :: "u8 list \<Rightarrow> string" where
  "sha256_hexdigest m = concat (map hex32 (foldl compress sha_init (chunks 64 (sha_pad m))))"

text \<open>\<open>s.encode()\<close>: UTF-8, one byte below 128 and two bytes from 128 to 255.\<close>

definition encode_char :: "char \<Rightarrow> u8 list" where
  "encode_char c =
     (let n = (of_char c :: nat)
      in if n < 128 then [word_of_nat n]
         else [word_of_nat (192 + n div 64), word_of_nat (128 + n mod 64)])"

definition py_encode :: "string \<Rightarrow> u8 list" where
  "py_encode s = concat (map encode_char s)"

text \<open>\<open>prompt_hash\<close> (lines 130-131).\<close>

definition prompt_hash :: "string \<Rightarrow> string" where
  "prompt_hash p = sha256_hexdigest (py_encode (normalize_prompt p))"

section \<open>Paths\<close>

text \<open>
  The program runs on a POSIX system. \<open>py_path_str s\<close> is \<open>str(Path(s))\<close>: the root is
  \<open>//\<close> for exactly two leading slashes and \<open>/\<close> for any other number of them, the
  components are the pieces between slashes without the empty ones and without \<open>.\<close>, and
  the empty path prints as \<open>.\<close>.
\<close>

fun split_on :: "'a \<Rightarrow> 'a list \<Rightarrow> 'a list list" where
  "split_on d [] = [] # []"
| "split_on d (c # cs) =
     (if c = d then [] # split_on d cs
      else (case split_on d cs of [] \<Rightarrow> [c] # [] | y # ys \<Rightarrow> (c # y) # ys))"

fun join_with :: "'a \<Rightarrow> 'a list list \<Rightarrow> 'a list" where
  "join_with d [] = []"
| "join_with d [x] = x"
| "join_with d (x # y # ys) = x @ d # join_with d (y # ys)"

definition path_root :: "string \<Rightarrow> string" where
  "path_root s =
     (if take 1 s \<noteq> ''/'' then ''''
      else if take 1 (drop 1 s) \<noteq> ''/'' \<or> take 1 (drop 2 s) = ''/'' then ''/''
      else ''//'')"

definition py_path_str :: "string \<Rightarrow> string" where
  "py_path_str s =
     (let r = path_root s @
              join_with CHR ''/'' (filter (\<lambda>x. x \<noteq> [] \<and> x \<noteq> ''.'') (split_on CHR ''/'' s))
      in if r = [] then ''.'' else r)"

text \<open>\<open>os.path.basename(p)\<close>: what follows the last slash.\<close>

definition basename :: "string \<Rightarrow> string" where
  "basename p = rev (takeWhile (\<lambda>c. c \<noteq> CHR ''/'') (rev p))"

text \<open>
  \<open>os.path.splitext(p)[1]\<close>: from the last dot of the last component on, when a
  character other than a dot stands before that dot in the component; empty otherwise.
\<close>

definition splitext_ext :: "string \<Rightarrow> string" where
  "splitext_ext p =
     (let b = basename p;
          e = rev (takeWhile (\<lambda>c. c \<noteq> CHR ''.'') (rev b));
          stem = take (length b - length e - 1) b
      in if CHR ''.'' \<in> set b \<and> (\<exists>c \<in> set stem. c \<noteq> CHR ''.'') then CHR ''.'' # e else [])"

text \<open>The decimal digits of a natural number, as an f-string prints it.\<close>

fun dec :: "nat \<Rightarrow> string" where
  "dec n = (if n < 10 then [''0123456789'' ! n] else dec (n div 10) @ [''0123456789'' ! (n mod 10)])"

declare dec.simps [simp del]

section \<open>The cache key\<close>

text \<open>
  Lines 175 and 249 build the text that is hashed: the prompt itself in mode \<open>text\<close>, and
  in every other mode the prompt followed by \<open>::image@\<close> and the base name of the stored
  image, or \<open>none\<close> without an image. Line 249 reads the image path back from the store
  as a string, where the empty string counts as no image; line 175 has a \<open>Path\<close>, whose
  string is never empty.
\<close>

definition cache_key :: "string \<Rightarrow> string \<Rightarrow> string option \<Rightarrow> string" where
  "cache_key mode prompt image_path =
     (if mode = ''text'' then prompt
      else prompt @ ''::image@'' @
           (case image_path of
              None \<Rightarrow> ''none''
            | Some ip \<Rightarrow> if ip = [] then ''none'' else basename ip))"

definition fingerprint :: "string \<Rightarrow> string \<Rightarrow> string option \<Rightarrow> string" where
  "fingerprint mode prompt image_path = prompt_hash (cache_key mode prompt image_path)"

section \<open>The store\<close>

text \<open>
  The three tables of \<open>init_db\<close> (lines 26-60), each a list of rows in insertion order.
  The timestamps that SQLite fills in with \<open>CURRENT_TIMESTAMP\<close> are readings of a clock
  that the environment supplies; \<open>issues\<close> holds the list that the row stores as JSON
  text. \<open>provider_calls\<close> is not a table: it logs every call of a provider's
  \<open>generate\<close> with the provider's slug, the prompt and the image path, so that the
  absence of a call can be stated.
\<close>

record generation =
  g_id :: nat
  g_prompt :: string
  g_mode :: string
  g_image_path :: "string option"
  g_provider :: string
  g_model_path :: string
  g_status :: string
  g_duration_ms :: int
  g_created_at :: nat
  g_cache_hit :: nat
  g_reuse_of :: "nat option"

record feedback_row =
  f_id :: nat
  f_generation_id :: nat
  f_rating :: int
  f_issues :: "string list"
  f_comment :: string
  f_created_at :: nat

record cache_row =
  c_hash :: string
  c_prompt :: string
  c_model_path :: string
  c_provider :: string
  c_quality_score :: "real option"
  c_last_used :: nat

record world =
  generations :: "generation list"
  feedbacks :: "feedback_row list"
  prompt_cache :: "cache_row list"
  provider_calls :: "(string \<times> string \<times> string option) list"

text \<open>
  The next value of an \<open>AUTOINCREMENT\<close> key. No statement of the program deletes a row,
  so the largest key ever used is the largest key in the table.
\<close>

definition next_id :: "nat list \<Rightarrow> nat" where
  "next_id ids = Suc (fold max ids 0)"

text \<open>\<open>SELECT * FROM prompt_cache WHERE hash=?\<close> with \<open>fetchone()\<close>.\<close>

definition select_cache :: "string \<Rightarrow> cache_row list \<Rightarrow> cache_row option" where
  "select_cache h rows = find (\<lambda>r. c_hash r = h) rows"

text \<open>\<open>SELECT * FROM generations WHERE id=?\<close> with \<open>fetchone()\<close>.\<close>

definition select_generation :: "nat \<Rightarrow> generation list \<Rightarrow> generation option" where
  "select_generation i rows = find (\<lambda>g. g_id g = i) rows"

section \<open>The similarity scan\<close>

text \<open>
  \<open>find_similar_prompt\<close> (lines 133-150) over the rows of \<open>prompt_cache\<close> in the order
  of the table scan. The quotient is taken in the reals; the program's is the nearest
  double.
\<close>

definition tokens_of :: "string \<Rightarrow> string set" where
  "tokens_of p = set (py_split (normalize_prompt p))"

definition jaccard :: "string set \<Rightarrow> string set \<Rightarrow> real" where
  "jaccard a b = real (card (a \<inter> b)) / real (max 1 (card (a \<union> b)))"

fun scan_step :: "string set \<Rightarrow> cache_row option \<times> real \<Rightarrow> cache_row \<Rightarrow> cache_row option \<times> real" where
  "scan_step tokens (best, best_score) r =
     (let tt = tokens_of (c_prompt r)
      in if tt = {} then (best, best_score)
         else let j = jaccard tokens tt
              in if j > best_score then (Some r, j) else (best, best_score))"

definition find_similar_prompt :: "cache_row list \<Rightarrow> string \<Rightarrow> real \<Rightarrow> cache_row option" where
  "find_similar_prompt rows p threshold =
     (let tokens = tokens_of p
      in if tokens = {} then None
         else (case foldl (scan_step tokens) (None, 0) rows of
                 (best, best_score) \<Rightarrow>
                   if best \<noteq> None \<and> best_score \<ge> threshold then best else None))"

text \<open>Lines 142 and 144: the score that the scan gives a row.\<close>

definition row_score :: "string set \<Rightarrow> cache_row \<Rightarrow> real" where
  "row_score tokens r = jaccard tokens (tokens_of (c_prompt r))"

section \<open>The generate handler\<close>

text \<open>
  A request is the form of \<open>/generate\<close> after the defaults of lines 162-165;
  \<open>r_upload\<close> is the file name of the part \<open>image\<close> when the form has one. The
  environment gives the two directories as strings, the reading of \<open>int(time.time())\<close>
  at line 171, the reading of \<open>CURRENT_TIMESTAMP\<close> and the latency that line 94
  measures. Storing the upload (line 172) and the file copy of the provider (lines 91-93)
  are taken to succeed.
\<close>

record request =
  r_mode :: string
  r_prompt :: string
  r_provider :: string
  r_reuse_policy :: string
  r_upload :: "string option"

record env =
  e_upload_dir :: string
  e_model_dir :: string
  e_time :: nat
  e_clock :: nat
  e_dur_ms :: int

text \<open>
  \<open>d / name\<close> for a directory \<open>d\<close> other than the root and a relative \<open>name\<close>, as
  a string.
\<close>

definition path_join :: "string \<Rightarrow> string \<Rightarrow> string" where
  "path_join d name = py_path_str (d @ ''/'' @ name)"

text \<open>Lines 170-171: the name under which an upload is stored.\<close>

definition upload_name :: "nat \<Rightarrow> string \<Rightarrow> string" where
  "upload_name t filename =
     (let ext = map py_lower (splitext_ext filename)
      in ''upl_'' @ dec t @ (if ext = [] then ''.png'' else ext))"

text \<open>
  Lines 167-172: an image is stored only in mode \<open>image\<close>, for a file part with a
  file name that is not empty; \<open>request_image_path\<close> is \<open>str(image_path)\<close>.
\<close>

definition stored_upload :: "request \<Rightarrow> string option" where
  "stored_upload rq =
     (if r_mode rq = ''image''
      then (case r_upload rq of None \<Rightarrow> None | Some fn \<Rightarrow> if fn = [] then None else Some fn)
      else None)"

definition request_image_path :: "env \<Rightarrow> request \<Rightarrow> string option" where
  "request_image_path e rq =
     map_option (\<lambda>fn. path_join (e_upload_dir e) (upload_name (e_time e) fn)) (stored_upload rq)"

text \<open>Line 175.\<close>

definition request_hash :: "env \<Rightarrow> request \<Rightarrow> string" where
  "request_hash e rq = fingerprint (r_mode rq) (r_prompt rq) (request_image_path e rq)"

text \<open>
  \<open>PROVIDERS.get(provider_key, PROVIDERS["meshy"]).slug\<close> (lines 117-122, 211). All four
  providers delegate to \<open>MockProvider.generate\<close> (lines 85-95), whose result path is
  computed from the raw prompt.
\<close>

definition provider_slug :: "string \<Rightarrow> string" where
  "provider_slug key =
     (if key \<in> set [''mock'', ''meshy'', ''kaedim'', ''tripoSR''] then key else ''meshy'')"

definition mock_out_path :: "string \<Rightarrow> string \<Rightarrow> string" where
  "mock_out_path model_dir prompt =
     path_join model_dir
       (take 12 (sha256_hexdigest (py_encode (if prompt = [] then ''image'' else prompt)))
        @ ''_cube.obj'')"

text \<open>
  \<open>record_generation\<close> (lines 182-189). Every call leaves \<open>_status\<close> at \<open>"ok"\<close> and
  passes \<open>_reuse_of=None\<close>.
\<close>

definition record_generation ::
  "env \<Rightarrow> request \<Rightarrow> string \<Rightarrow> string \<Rightarrow> int \<Rightarrow> nat \<Rightarrow> world \<Rightarrow> nat \<times> world" where
  "record_generation e rq model_path provider dur hit w =
     (let gen_id = next_id (map g_id (generations w))
      in (gen_id,
          w\<lparr>generations := generations w @
               [\<lparr>g_id = gen_id, g_prompt = r_prompt rq, g_mode = r_mode rq,
                 g_image_path = request_image_path e rq, g_provider = provider,
                 g_model_path = model_path, g_status = ''ok'', g_duration_ms = dur,
                 g_created_at = e_clock e, g_cache_hit = hit, g_reuse_of = None\<rparr>]\<rparr>))"

text \<open>\<open>q or d\<close> on a nullable real: \<open>None\<close> and \<open>0.0\<close> are both falsy.\<close>

definition or_default :: "real option \<Rightarrow> real \<Rightarrow> real" where
  "or_default q d = (case q of None \<Rightarrow> d | Some v \<Rightarrow> if v = 0 then d else v)"

text \<open>Lines 200-202: the similar entry that passes the gate, if the policy asks for one.\<close>

definition smart_match :: "string \<Rightarrow> cache_row option \<Rightarrow> cache_row list \<Rightarrow> string \<Rightarrow> cache_row option" where
  "smart_match policy row rows prompt =
     (if policy = ''smart'' \<and> row = None
      then (case find_similar_prompt rows prompt (92 / 100) of
              None \<Rightarrow> None
            | Some sim \<Rightarrow> if or_default (c_quality_score sim) 4 \<ge> 35 / 10 then Some sim else None)
      else None)"

text \<open>
  Lines 216-218: \<open>INSERT OR REPLACE\<close> removes the row of the same hash and appends the
  new one, whose score is the one the old row had.
\<close>

definition upsert_cache :: "cache_row list \<Rightarrow> string \<Rightarrow> string \<Rightarrow> string \<Rightarrow> string \<Rightarrow> nat \<Rightarrow> cache_row list" where
  "upsert_cache rows h prompt model_path provider now =
     filter (\<lambda>r. c_hash r \<noteq> h) rows @
     [\<lparr>c_hash = h, c_prompt = prompt, c_model_path = model_path, c_provider = provider,
       c_quality_score = (case select_cache h rows of None \<Rightarrow> None | Some r \<Rightarrow> c_quality_score r),
       c_last_used = now\<rparr>]"

text \<open>Lines 210-222: the provider is called and the cache row written.\<close>

definition fresh_generation :: "env \<Rightarrow> request \<Rightarrow> world \<Rightarrow> nat \<times> world" where
  "fresh_generation e rq w =
     (let slug = provider_slug (r_provider rq);
          out_path = mock_out_path (e_model_dir e) (r_prompt rq);
          w1 = w\<lparr>provider_calls := provider_calls w @
                    [(slug, r_prompt rq, request_image_path e rq)]\<rparr>;
          (gen_id, w2) = record_generation e rq out_path slug (e_dur_ms e) 0 w1
      in (gen_id,
          w2\<lparr>prompt_cache :=
               upsert_cache (prompt_cache w2) (request_hash e rq) (r_prompt rq) out_path slug
                 (e_clock e)\<rparr>))"

text \<open>
  \<open>generate\<close> (lines 160-222). The result is the id in the redirect to the detail page,
  with the store after the request.
\<close>

definition generate :: "env \<Rightarrow> request \<Rightarrow> world \<Rightarrow> nat \<times> world" where
  "generate e rq w =
     (let row = select_cache (request_hash e rq) (prompt_cache w)
      in case (if r_reuse_policy rq = ''always'' \<or> r_reuse_policy rq = ''smart''
               then row else None) of
           Some r \<Rightarrow>
             record_generation e rq (py_path_str (c_model_path r)) (c_provider r) 0 1 w
         | None \<Rightarrow>
             (case smart_match (r_reuse_policy rq) row (prompt_cache w) (r_prompt rq) of
                Some sim \<Rightarrow>
                  record_generation e rq (py_path_str (c_model_path sim)) ''cache-similar'' 0 2 w
              | None \<Rightarrow> fresh_generation e rq w))"

section \<open>The feedback and detail handlers\<close>

text \<open>\<open>AVG(rating)\<close>: \<open>NULL\<close> over no row.\<close>

definition avg_rating :: "int list \<Rightarrow> real option" where
  "avg_rating rs = (if rs = [] then None else Some (real_of_int (sum_list rs) / real (length rs)))"

text \<open>
  \<open>feedback\<close> (lines 238-256), from the parsed form: \<open>rating\<close> is the integer that
  line 240 reads before the store is touched. The result is the id in the redirect.
\<close>

definition feedback :: "env \<Rightarrow> nat \<Rightarrow> int \<Rightarrow> string list \<Rightarrow> string \<Rightarrow> world \<Rightarrow> nat \<times> world" where
  "feedback e gen_id rating issues comment w =
     (let row = \<lparr>f_id = next_id (map f_id (feedbacks w)), f_generation_id = gen_id,
                 f_rating = rating, f_issues = issues, f_comment = py_strip comment,
                 f_created_at = e_clock e\<rparr>;
          w1 = w\<lparr>feedbacks := feedbacks w @ [row]\<rparr>
      in case select_generation gen_id (generations w1) of
           None \<Rightarrow> (gen_id, w1)
         | Some g \<Rightarrow>
             let h = fingerprint (g_mode g) (g_prompt g) (g_image_path g);
                 ids = map g_id (filter (\<lambda>x. g_prompt x = g_prompt g) (generations w1));
                 avg_r = avg_rating (map f_rating
                           (filter (\<lambda>f. f_generation_id f \<in> set ids) (feedbacks w1)))
             in case avg_r of
                  None \<Rightarrow> (gen_id, w1)
                | Some a \<Rightarrow>
                    if a = 0 then (gen_id, w1)
                    else (gen_id,
                          w1\<lparr>prompt_cache :=
                               map (\<lambda>r. if c_hash r = h then r\<lparr>c_quality_score := Some a\<rparr> else r)
                                 (prompt_cache w1)\<rparr>))"



section \<open>An invariant of the cache\<close>

text \<open>
  Every model path in the cache is the string of a path. The empty store has the property
  and both handlers keep it (\<open>generate_keeps_paths\<close>, \<open>feedback_keeps_paths\<close>).
\<close>

definition cache_paths_ok :: "world \<Rightarrow> bool" where
  "cache_paths_ok w \<longleftrightarrow>
     (\<forall>r \<in> set (prompt_cache w). py_path_str (c_model_path r) = c_model_path r)"

section \<open>Example stores\<close>

text \<open>
  Concrete environments, requests and stores on which the theorems below are evaluated.
  The hash of an example cache row is the fingerprint that \<open>generate\<close> stores for it.
  The stores are given as data: apart from \<open>dragon_world\<close>, their quality scores are
  chosen for the example and have no feedback rows behind them.
\<close>

definition env0 :: env where
  "env0 = \<lparr>e_upload_dir = ''/srv/app/static/uploads'', e_model_dir = ''/srv/app/static/models'',
            e_time = 1730000000, e_clock = 1730000000, e_dur_ms = 7\<rparr>"

definition empty_world :: world where
  "empty_world = \<lparr>generations = [], feedbacks = [], prompt_cache = [], provider_calls = []\<rparr>"

definition text_request :: "string \<Rightarrow> string \<Rightarrow> request" where
  "text_request prompt policy =
     \<lparr>r_mode = ''text'', r_prompt = prompt, r_provider = ''mock'', r_reuse_policy = policy,
      r_upload = None\<rparr>"

definition image_request :: "string \<Rightarrow> string \<Rightarrow> string option \<Rightarrow> request" where
  "image_request prompt policy upload =
     \<lparr>r_mode = ''image'', r_prompt = prompt, r_provider = ''mock'', r_reuse_policy = policy,
      r_upload = upload\<rparr>"

definition example_generation :: "nat \<Rightarrow> string \<Rightarrow> string \<Rightarrow> string \<Rightarrow> int \<Rightarrow> nat \<Rightarrow> generation" where
  "example_generation i mode prompt model_path dur hit =
     \<lparr>g_id = i, g_prompt = prompt, g_mode = mode, g_image_path = None, g_provider = ''mock'',
      g_model_path = model_path, g_status = ''ok'', g_duration_ms = dur, g_created_at = 0,
      g_cache_hit = hit, g_reuse_of = None\<rparr>"

definition example_entry :: "string \<Rightarrow> string \<Rightarrow> string \<Rightarrow> real option \<Rightarrow> cache_row" where
  "example_entry h prompt model_path score =
     \<lparr>c_hash = h, c_prompt = prompt, c_model_path = model_path, c_provider = ''mock'',
      c_quality_score = score, c_last_used = 0\<rparr>"

text \<open>One generation and one cache row for the text prompt \<open>a red dragon\<close>, with score 1.\<close>

definition red_dragon_world :: world where
  "red_dragon_world =
     \<lparr>generations =
        [example_generation 1 ''text'' ''a red dragon''
           ''/srv/app/static/models/8b13e06dabc7_cube.obj'' 7 0],
      feedbacks = [],
      prompt_cache =
        [example_entry (fingerprint ''text'' ''a red dragon'' None) ''a red dragon''
           ''/srv/app/static/models/8b13e06dabc7_cube.obj'' (Some 1)],
      provider_calls = [(''mock'', ''a red dragon'', None)]\<rparr>"

text \<open>
  One generation and one cache row for the prompt \<open>x\<close> in mode \<open>image\<close> without an
  upload; the score of the row is the parameter.
\<close>

definition x_world :: "real option \<Rightarrow> world" where
  "x_world score =
     \<lparr>generations =
        [example_generation 1 ''image'' ''x'' ''/srv/app/static/models/2d711642b726_cube.obj'' 7 0],
      feedbacks = [],
      prompt_cache =
        [example_entry (fingerprint ''image'' ''x'' None) ''x''
           ''/srv/app/static/models/2d711642b726_cube.obj'' score],
      provider_calls = [(''mock'', ''x'', None)]\<rparr>"

text \<open>
  Two cache rows of mode \<open>image\<close>: prompt \<open>x\<close> with score 5, and prompt \<open>x\<close> with
  a trailing space, without a score.
\<close>

definition two_row_world :: world where
  "two_row_world =
     \<lparr>generations =
        [example_generation 1 ''image'' ''x'' ''/srv/app/static/models/2d711642b726_cube.obj'' 7 0,
         example_generation 2 ''image'' ''x '' ''/srv/app/static/models/2ac3e029f2ae_cube.obj'' 7 0],
      feedbacks = [],
      prompt_cache =
        [example_entry (fingerprint ''image'' ''x'' None) ''x''
           ''/srv/app/static/models/2d711642b726_cube.obj'' (Some 5),
         example_entry (fingerprint ''image'' ''x '' None) ''x ''
           ''/srv/app/static/models/2ac3e029f2ae_cube.obj'' None],
      provider_calls = [(''mock'', ''x'', None), (''mock'', ''x '', None)]\<rparr>"

text \<open>
  Prompt \<open>dragon\<close>: a fresh generation, an exact reuse of it, and a rating of 5 for the
  first of the two, which the cache row already carries.
\<close>

definition dragon_world :: world where
  "dragon_world =
     \<lparr>generations =
        [example_generation 1 ''text'' ''dragon'' ''/srv/app/static/models/a9c43be948c5_cube.obj'' 7 0,
         example_generation 2 ''text'' ''dragon'' ''/srv/app/static/models/a9c43be948c5_cube.obj'' 0 1],
      feedbacks =
        [\<lparr>f_id = 1, f_generation_id = 1, f_rating = 5, f_issues = [], f_comment = [],
          f_created_at = 0\<rparr>],
      prompt_cache =
        [example_entry (fingerprint ''text'' ''dragon'' None) ''dragon''
           ''/srv/app/static/models/a9c43be948c5_cube.obj'' (Some 5)],
      provider_calls = [(''mock'', ''dragon'', None)]\<rparr>"

text \<open>Two prompts of 24 tokens each that share 23 of them, and a row for the second.\<close>

definition letters_x :: string where
  "letters_x = ''a b c d e f g h i j k l m n o p q r s t u v w x''"

definition letters_y :: string where
  "letters_y = ''a b c d e f g h i j k l m n o p q r s t u v w y''"

definition letters_row :: cache_row where
  "letters_row = example_entry (fingerprint ''text'' letters_y None) letters_y
                   ''/srv/app/static/models/e5b5c8249001_cube.obj'' None"

definition b_row :: cache_row where
  "b_row = example_entry (fingerprint ''text'' ''b'' None) ''b''
             ''/srv/app/static/models/3e23e8160039_cube.obj'' None"

text \<open>
  Two prompts of 95 and 96 tokens that share 91 of them, 100 tokens in all, and a row for
  the second.
\<close>

definition numbers_a :: string where
  "numbers_a = ''1 2 3 4 5 6 7 8 9 10 11 12 13 14 15 16 17 18 19 20 21 22 23 24 25 26 27 28 29 30 31 32 33 34 35 36 37 38 39 40 41 42 43 44 45 46 47 48 49 50 51 52 53 54 55 56 57 58 59 60 61 62 63 64 65 66 67 68 69 70 71 72 73 74 75 76 77 78 79 80 81 82 83 84 85 86 87 88 89 90 91 92 93 94 95''"

definition numbers_b :: string where
  "numbers_b = ''1 2 3 4 5 6 7 8 9 10 11 12 13 14 15 16 17 18 19 20 21 22 23 24 25 26 27 28 29 30 31 32 33 34 35 36 37 38 39 40 41 42 43 44 45 46 47 48 49 50 51 52 53 54 55 56 57 58 59 60 61 62 63 64 65 66 67 68 69 70 71 72 73 74 75 76 77 78 79 80 81 82 83 84 85 86 87 88 89 90 91 96 97 98 99 100''"

definition numbers_row :: cache_row where
  "numbers_row = example_entry (fingerprint ''text'' numbers_b None) numbers_b
                   ''/srv/app/static/models/de05649dc2cb_cube.obj'' None"


section \<open>Auxiliary facts\<close>

lemmas char_defs = is_space_def py_lower_def upper_chars_def lower_chars_def

lemmas string_defs = normalize_prompt_def py_strip_def char_defs

lemmas gen_defs = generate_def record_generation_def fresh_generation_def smart_match_def
  or_default_def upsert_cache_def Let_def

subsection \<open>Normalisation behind a prefix without whitespace\<close>

lemma dropWhile_keep: "xs \<noteq> [] \<Longrightarrow> \<not> P (hd xs) \<Longrightarrow> dropWhile P xs = xs"
  by (cases xs) simp_all

lemma rstrip_prefix:
  assumes "pre \<noteq> []" "\<not> is_space (last pre)"
  shows "rev (dropWhile is_space (rev (pre @ s))) = pre @ rev (dropWhile is_space (rev s))"
proof (cases "\<forall>x \<in> set (rev s). is_space x")
  case True
  then have "dropWhile is_space (rev s) = []" by simp
  moreover have "dropWhile is_space (rev pre) = rev pre"
    using assms by (intro dropWhile_keep) (simp_all add: hd_rev)
  ultimately show ?thesis using True by (simp add: dropWhile_append)
next
  case False
  then show ?thesis by (auto simp: dropWhile_append)
qed

lemma re_sub_ws_prefix:
  "\<forall>c \<in> set pre. \<not> is_space c \<Longrightarrow> re_sub_ws (pre @ t) = pre @ re_sub_ws t"
  by (induction pre) simp_all

lemma normalize_prefix:
  assumes "pre \<noteq> []" "\<forall>c \<in> set pre. \<not> is_space c \<and> py_lower c = c"
  shows "normalize_prompt (pre @ s) =
           pre @ re_sub_ws (map py_lower (rev (dropWhile is_space (rev s))))"
proof -
  have hd: "\<not> is_space (hd (pre @ s))" and lst: "\<not> is_space (last pre)"
    using assms by (simp_all add: hd_append)
  have "dropWhile is_space (pre @ s) = pre @ s"
    using assms(1) hd by (intro dropWhile_keep) simp_all
  then have "py_strip (pre @ s) = pre @ rev (dropWhile is_space (rev s))"
    using rstrip_prefix [OF assms(1) lst] by (simp add: py_strip_def)
  moreover have "map py_lower pre = pre"
    using assms(2) by (simp add: map_idI)
  moreover have "\<forall>c \<in> set pre. \<not> is_space c" using assms(2) by simp
  ultimately show ?thesis
    by (simp add: normalize_prompt_def re_sub_ws_prefix)
qed




subsection \<open>A digest is 64 hexadecimal digits\<close>

lemma length_sha_round: "length (sha_round s kw) = length s"
  by (induction s kw rule: sha_round.induct) (simp_all add: Let_def)

lemma length_foldl_sha_round: "length (foldl sha_round s xs) = length s"
  by (induction xs arbitrary: s) (simp_all add: length_sha_round)

lemma length_compress: "length (compress s b) = length s"
  by (simp add: compress_def Let_def length_foldl_sha_round)

lemma length_foldl_compress: "length (foldl compress s bs) = length s"
  by (induction bs arbitrary: s) (simp_all add: length_compress)

lemma length_hex32: "length (hex32 w) = 8"
  by (simp add: hex32_def)

lemma length_concat_hex32: "length (concat (map hex32 ws)) = 8 * length ws"
  by (induction ws) (simp_all add: length_hex32)

lemma length_sha256_hexdigest: "length (sha256_hexdigest m) = 64"
  by (simp add: sha256_hexdigest_def length_concat_hex32 length_foldl_compress sha_init_def)

lemma hex_digit_mem: "n < 16 \<Longrightarrow> hex_digit n \<in> set ''0123456789abcdef''"
  unfolding hex_digit_def by (rule nth_mem) simp

lemma unat_and_15: "unat ((x :: u32) AND 15) < 16"
proof -
  have "unat (x AND 15) \<le> unat (15 :: u32)"
    by (rule word_and_le1 [THEN word_le_nat_alt [THEN iffD1]])
  then show ?thesis by simp
qed

lemma set_hex32: "set (hex32 w) \<subseteq> set ''0123456789abcdef''"
  unfolding hex32_def set_map
  by (rule image_subsetI) (rule hex_digit_mem [OF unat_and_15])

lemma set_concat_hex32: "set (concat (map hex32 ws)) \<subseteq> set ''0123456789abcdef''"
proof (induction ws)
  case Nil
  then show ?case by simp
next
  case (Cons w ws)
  from set_hex32 [of w] Cons show ?case
    by (simp only: list.map concat.simps set_append Un_subset_iff simp_thms)
qed

lemma set_sha256_hexdigest: "set (sha256_hexdigest m) \<subseteq> set ''0123456789abcdef''"
  unfolding sha256_hexdigest_def by (rule set_concat_hex32)

lemma finite_digests: "finite (range sha256_hexdigest)"
proof -
  have "range sha256_hexdigest \<subseteq> {xs. set xs \<subseteq> set ''0123456789abcdef'' \<and> length xs = 64}"
    using set_sha256_hexdigest length_sha256_hexdigest by blast
  moreover have "finite {xs. set xs \<subseteq> set ''0123456789abcdef'' \<and> length xs = 64}"
    by (rule finite_lists_length_eq) simp
  ultimately show ?thesis by (rule finite_subset)
qed

subsection \<open>The scan as a maximum\<close>

lemma jaccard_nonneg: "0 \<le> jaccard a b"
  by (simp add: jaccard_def)

lemma jaccard_empty: "jaccard a {} = 0"
  by (simp add: jaccard_def)

lemma scan_step_score:
  "0 \<le> bs \<Longrightarrow> scan_step tokens (b, bs) r =
     (if bs < row_score tokens r then (Some r, row_score tokens r) else (b, bs))"
  by (simp add: Let_def row_score_def jaccard_empty)

lemma scan_invariant:
  "foldl (scan_step tokens) (None, 0) rows = (best, bs) \<Longrightarrow>
     0 \<le> bs \<and> (\<forall>k<length rows. row_score tokens (rows ! k) \<le> bs) \<and>
     (case best of
        None \<Rightarrow> bs = 0
      | Some r \<Rightarrow> 0 < bs \<and> (\<exists>i<length rows. rows ! i = r \<and> row_score tokens r = bs \<and>
                     (\<forall>k<i. row_score tokens (rows ! k) < bs)))"
proof (induction rows arbitrary: best bs rule: rev_induct)
  case Nil
  then show ?case by simp
next
  case (snoc x xs)
  obtain b0 s0 where f: "foldl (scan_step tokens) (None, 0) xs = (b0, s0)"
    by (cases "foldl (scan_step tokens) (None, 0) xs")
  from snoc.IH [OF f] have nn: "0 \<le> s0"
    and le: "\<forall>k<length xs. row_score tokens (xs ! k) \<le> s0"
    and bst: "case b0 of None \<Rightarrow> s0 = 0
        | Some r \<Rightarrow> 0 < s0 \<and> (\<exists>i<length xs. xs ! i = r \<and> row_score tokens r = s0 \<and>
                     (\<forall>k<i. row_score tokens (xs ! k) < s0))"
    by simp_all
  from snoc.prems f have "scan_step tokens (b0, s0) x = (best, bs)"
    by (simp del: scan_step.simps)
  then have step:
    "(best, bs) = (if s0 < row_score tokens x then (Some x, row_score tokens x) else (b0, s0))"
    by (simp only: scan_step_score [OF nn])
  show ?case
  proof (cases "s0 < row_score tokens x")
    case True
    with step have eq: "best = Some x" "bs = row_score tokens x" by simp_all
    have "\<forall>k<length xs. row_score tokens ((xs @ [x]) ! k) < bs"
      using le True eq by (auto simp: nth_append)
    then show ?thesis
      using eq True nn
      by (auto simp: nth_append less_Suc_eq intro!: exI [of _ "length xs"] dest: less_imp_le)
  next
    case False
    with step have eq: "best = b0" "bs = s0" by simp_all
    have all: "\<forall>k<length (xs @ [x]). row_score tokens ((xs @ [x]) ! k) \<le> bs"
      using le False eq by (auto simp: nth_append less_Suc_eq)
    show ?thesis
    proof (cases b0)
      case None
      with bst eq nn all show ?thesis by simp
    next
      case (Some r)
      with bst obtain i where i: "i < length xs" "xs ! i = r" "row_score tokens r = s0"
        "\<forall>k<i. row_score tokens (xs ! k) < s0" "0 < s0" by auto
      then have "i < length (xs @ [x]) \<and> (xs @ [x]) ! i = r \<and> row_score tokens r = bs \<and>
                     (\<forall>k<i. row_score tokens ((xs @ [x]) ! k) < bs)"
        using eq by (auto simp: nth_append)
      then show ?thesis using Some eq all nn i(5) by auto
    qed
  qed
qed

lemma find_similar_prompt_char:
  "find_similar_prompt rows p th = Some r \<longleftrightarrow>
     tokens_of p \<noteq> {} \<and>
     (\<exists>i<length rows. rows ! i = r \<and>
        0 < row_score (tokens_of p) r \<and> th \<le> row_score (tokens_of p) r \<and>
        (\<forall>k<length rows. row_score (tokens_of p) (rows ! k) \<le> row_score (tokens_of p) r) \<and>
        (\<forall>k<i. row_score (tokens_of p) (rows ! k) < row_score (tokens_of p) r))"
  (is "?L \<longleftrightarrow> ?R")
proof -
  obtain best bs where f: "foldl (scan_step (tokens_of p)) (None, 0) rows = (best, bs)"
    by (cases "foldl (scan_step (tokens_of p)) (None, 0) rows")
  note inv = scan_invariant [OF f]
  have res: "find_similar_prompt rows p th =
      (if tokens_of p = {} then None else if best \<noteq> None \<and> th \<le> bs then best else None)"
    by (simp add: find_similar_prompt_def Let_def f)
  show ?thesis
  proof
    assume ?L
    with res have ne: "tokens_of p \<noteq> {}" and b: "best = Some r" and t: "th \<le> bs"
      by (auto split: if_splits)
    with inv show ?R by auto
  next
    assume R: ?R
    then obtain i where i: "i < length rows" "rows ! i = r" "0 < row_score (tokens_of p) r"
      "th \<le> row_score (tokens_of p) r"
      "\<forall>k<length rows. row_score (tokens_of p) (rows ! k) \<le> row_score (tokens_of p) r"
      "\<forall>k<i. row_score (tokens_of p) (rows ! k) < row_score (tokens_of p) r"
      by auto
    from inv i(1,2) have le: "row_score (tokens_of p) r \<le> bs" by auto
    with i(3) have pos: "0 < bs" by simp
    with inv obtain r' where b: "best = Some r'" by (cases best) auto
    with inv obtain j where j: "j < length rows" "rows ! j = r'" "row_score (tokens_of p) r' = bs"
      "\<forall>k<j. row_score (tokens_of p) (rows ! k) < bs" by auto
    from i(5) j(1,2,3) have "bs \<le> row_score (tokens_of p) r" by auto
    with le have e: "bs = row_score (tokens_of p) r" by simp
    have "j = i"
    proof (rule ccontr)
      assume "j \<noteq> i"
      then consider "j < i" | "i < j" by linarith
      then show False
      proof cases
        case 1
        with i(6) j(2,3) e show False by auto
      next
        case 2
        with j(4) i(2) e show False by auto
      qed
    qed
    with i(2) j(2) have "r' = r" by simp
    with res R b e i(4) show ?L by simp
  qed
qed

lemma finite_tokens_of: "finite (tokens_of p)"
  by (simp add: tokens_of_def)

lemma row_score_quotient:
  "tokens_of p \<noteq> {} \<Longrightarrow>
   row_score (tokens_of p) r =
     real (card (tokens_of p \<inter> tokens_of (c_prompt r))) /
     real (card (tokens_of p \<union> tokens_of (c_prompt r)))"
proof -
  assume "tokens_of p \<noteq> {}"
  then have "0 < card (tokens_of p \<union> tokens_of (c_prompt r))"
    by (simp add: card_gt_0_iff finite_tokens_of)
  then have "max 1 (card (tokens_of p \<union> tokens_of (c_prompt r))) =
             card (tokens_of p \<union> tokens_of (c_prompt r))"
    by simp
  then show ?thesis
    by (simp only: row_score_def jaccard_def)
qed

subsection \<open>The store\<close>

lemma select_cache_map_score:
  "select_cache h (map (\<lambda>x. x\<lparr>c_quality_score := q x\<rparr>) rows) =
     map_option (\<lambda>x. x\<lparr>c_quality_score := q x\<rparr>) (select_cache h rows)"
  by (induction rows) (simp_all add: select_cache_def)

lemma sum_list_ge_length:
  "\<forall>x \<in> set xs. (1::int) \<le> x \<Longrightarrow> int (length xs) \<le> sum_list xs"
  by (induction xs) auto

lemma select_generation_Some:
  "select_generation i rows = Some g \<Longrightarrow> g \<in> set rows \<and> g_id g = i"
  by (auto simp: select_generation_def find_Some_iff)

lemma request_hash_no_upload:
  "request_hash e (image_request p pol None) = fingerprint ''image'' p None"
  by (simp add: request_hash_def request_image_path_def stored_upload_def image_request_def)

lemma fingerprint_text_deterministic:
  "normalize_prompt p1 = normalize_prompt p2 \<Longrightarrow>
   fingerprint ''text'' p1 i1 = fingerprint ''text'' p2 i2"
  by (simp add: fingerprint_def cache_key_def prompt_hash_def)

subsection \<open>Path strings\<close>

lemma split_on_not_Nil: "split_on d s \<noteq> []"
  by (induction s) (auto split: list.splits)

lemma split_on_no_sep: "d \<notin> set x \<Longrightarrow> split_on d x = [x]"
  by (induction x) auto

lemma split_on_append_sep:
  "d \<notin> set x \<Longrightarrow> split_on d (x @ d # r) = x # split_on d r"
  by (induction x) (auto simp: split_on_not_Nil split: list.splits)

lemma split_on_parts: "c \<in> set (split_on d s) \<Longrightarrow> d \<notin> set c"
proof (induction s arbitrary: c)
  case Nil
  then show ?case by simp
next
  case (Cons a s)
  then show ?case
    by (cases "split_on d s") (auto simp: split_on_not_Nil split: if_splits)
qed

lemma split_on_join:
  "comps \<noteq> [] \<Longrightarrow> \<forall>c \<in> set comps. d \<notin> set c \<Longrightarrow> split_on d (join_with d comps) = comps"
proof (induction d comps rule: join_with.induct)
  case (1 d)
  then show ?case by simp
next
  case (2 d x)
  then show ?case by (simp add: split_on_no_sep)
next
  case (3 d x y ys)
  then show ?case by (simp add: split_on_append_sep)
qed

lemma hd_join_with:
  "comps \<noteq> [] \<Longrightarrow> hd comps \<noteq> [] \<Longrightarrow> join_with d comps \<noteq> [] \<and> hd (join_with d comps) = hd (hd comps)"
  by (induction d comps rule: join_with.induct) auto

lemma py_path_str_idem: "py_path_str (py_path_str s) = py_path_str s"
proof -
  define comps where "comps = filter (\<lambda>x. x \<noteq> [] \<and> x \<noteq> ''.'') (split_on CHR ''/'' s)"
  define j where "j = join_with CHR ''/'' comps"
  define r where "r = path_root s @ j"
  have str: "py_path_str s = (if r = [] then ''.'' else r)"
    by (simp add: py_path_str_def comps_def j_def r_def Let_def)
  have ok: "\<forall>c \<in> set comps. c \<noteq> [] \<and> c \<noteq> ''.'' \<and> CHR ''/'' \<notin> set c"
    by (auto simp: comps_def dest: split_on_parts)
  have flt: "filter (\<lambda>x. x \<noteq> [] \<and> x \<noteq> ''.'') comps = comps"
    using ok by (simp add: filter_id_conv)
  have sj: "filter (\<lambda>x. x \<noteq> [] \<and> x \<noteq> ''.'') (split_on CHR ''/'' j) = comps"
  proof (cases "comps = []")
    case True
    then show ?thesis by (simp add: j_def)
  next
    case False
    with ok have "split_on CHR ''/'' j = comps"
      unfolding j_def by (intro split_on_join) simp_all
    with flt show ?thesis by simp
  qed
  have hdj: "take 1 j \<noteq> ''/''"
  proof (cases "comps = []")
    case True
    then show ?thesis by (simp add: j_def)
  next
    case False
    with ok have h: "hd comps \<noteq> []" "CHR ''/'' \<notin> set (hd comps)"
      by simp_all
    with False have "j \<noteq> []" "hd j = hd (hd comps)"
      unfolding j_def using hd_join_with [of comps "CHR ''/''"] by simp_all
    moreover have "hd (hd comps) \<noteq> CHR ''/''"
      using h by (cases "hd comps") auto
    ultimately show ?thesis by (cases j) auto
  qed
  have root: "path_root s = [] \<or> path_root s = ''/'' \<or> path_root s = ''//''"
    by (simp add: path_root_def)
  show ?thesis
  proof (cases "r = []")
    case True
    then have "py_path_str s = ''.''"
      by (simp add: str)
    moreover have "py_path_str ''.'' = ''.''"
      by (simp add: py_path_str_def path_root_def)
    ultimately show ?thesis
      by simp
  next
    case False
    have "py_path_str r = r"
      using root
    proof (elim disjE)
      assume e: "path_root s = []"
      with False have jn: "j \<noteq> []" by (simp add: r_def)
      have "path_root j = []"
        using hdj by (simp add: path_root_def)
      then show ?thesis
        using e sj jn by (simp add: r_def py_path_str_def j_def [symmetric])
    next
      assume e: "path_root s = ''/''"
      have "path_root (CHR ''/'' # j) = ''/''"
        using hdj by (simp add: path_root_def)
      then show ?thesis
        using e sj by (simp add: r_def py_path_str_def j_def [symmetric])
    next
      assume e: "path_root s = ''//''"
      have "path_root (CHR ''/'' # CHR ''/'' # j) = ''//''"
        using hdj by (simp add: path_root_def)
      then show ?thesis
        using e sj by (simp add: r_def py_path_str_def j_def [symmetric])
    qed
    with False show ?thesis by (simp add: str)
  qed
qed

lemma mock_out_path_is_path: "py_path_str (mock_out_path d p) = mock_out_path d p"
  by (simp add: mock_out_path_def path_join_def py_path_str_idem)

subsection \<open>More on the store\<close>

lemma select_cache_Some:
  "select_cache h rows = Some r \<Longrightarrow> r \<in> set rows \<and> c_hash r = h"
  by (auto simp: select_cache_def find_Some_iff)

lemma select_cache_upsert:
  "select_cache h (upsert_cache rows h prompt model_path provider now) =
     Some \<lparr>c_hash = h, c_prompt = prompt, c_model_path = model_path, c_provider = provider,
           c_quality_score = (case select_cache h rows of None \<Rightarrow> None | Some r \<Rightarrow> c_quality_score r),
           c_last_used = now\<rparr>"
proof -
  have "find (\<lambda>r. c_hash r = h) (filter (\<lambda>r. c_hash r \<noteq> h) rows @ xs) = find (\<lambda>r. c_hash r = h) xs"
    for xs
    by (induction rows) simp_all
  then show ?thesis
    by (simp add: select_cache_def upsert_cache_def)
qed

lemma request_hash_env:
  "stored_upload rq = None \<Longrightarrow> request_hash e rq = request_hash e' rq"
  by (simp add: request_hash_def request_image_path_def)

lemma generate_keeps_paths:
  "cache_paths_ok w \<Longrightarrow> cache_paths_ok (snd (generate e rq w))"
  by (auto simp: cache_paths_ok_def gen_defs mock_out_path_is_path split: option.splits)

lemma feedback_keeps_paths:
  "cache_paths_ok w \<Longrightarrow> cache_paths_ok (snd (feedback e i rating issues comment w))"
  by (auto simp: cache_paths_ok_def feedback_def Let_def split: option.splits)

lemma empty_world_paths: "cache_paths_ok empty_world"
  by (simp add: cache_paths_ok_def empty_world_def)

lemma generate_exact:
  assumes pol: "r_reuse_policy rq = ''always'' \<or> r_reuse_policy rq = ''smart''"
    and row: "select_cache (request_hash e rq) (prompt_cache w) = Some r"
  shows "\<exists>g. generate e rq w = (g_id g, w\<lparr>generations := generations w @ [g]\<rparr>)
           \<and> g_id g = next_id (map g_id (generations w))
           \<and> g_cache_hit g = 1
           \<and> g_model_path g = py_path_str (c_model_path r)
           \<and> (cache_paths_ok w \<longrightarrow> g_model_path g = c_model_path r)
           \<and> g_provider g = c_provider r
           \<and> g_duration_ms g = 0
           \<and> provider_calls (snd (generate e rq w)) = provider_calls w
           \<and> prompt_cache (snd (generate e rq w)) = prompt_cache w
           \<and> (\<forall>q. generations (snd (generate e rq
                      (w\<lparr>prompt_cache := map (\<lambda>x. x\<lparr>c_quality_score := q x\<rparr>) (prompt_cache w)\<rparr>)))
                  = generations w @ [g])"
proof -
  let ?g = "\<lparr>g_id = next_id (map g_id (generations w)), g_prompt = r_prompt rq, g_mode = r_mode rq,
             g_image_path = request_image_path e rq, g_provider = c_provider r,
             g_model_path = py_path_str (c_model_path r), g_status = ''ok'', g_duration_ms = 0,
             g_created_at = e_clock e, g_cache_hit = 1, g_reuse_of = None\<rparr>"
  have gen: "generate e rq w = (g_id ?g, w\<lparr>generations := generations w @ [?g]\<rparr>)"
    using pol row by (auto simp: generate_def record_generation_def Let_def)
  have indep: "generations (snd (generate e rq
                 (w\<lparr>prompt_cache := map (\<lambda>x. x\<lparr>c_quality_score := q x\<rparr>) (prompt_cache w)\<rparr>)))
               = generations w @ [?g]" for q
    using pol row
    by (auto simp: generate_def record_generation_def Let_def select_cache_map_score)
  have path: "cache_paths_ok w \<longrightarrow> py_path_str (c_model_path r) = c_model_path r"
    using select_cache_Some [OF row] by (simp add: cache_paths_ok_def)
  show ?thesis
    by (rule exI [of _ ?g]) (simp add: gen indep path)
qed

subsection \<open>Two digests and the example stores\<close>

text \<open>
  The digests of the two texts that are hashed for the prompts \<open>x\<close> and \<open>x\<close> with a
  trailing space in mode \<open>image\<close> without an upload, computed from the definition.
\<close>

lemma digest_x_none:
  "sha256_hexdigest (py_encode ''x::image@none'') =
     ''8edeb33106511b2392c7179912dbe580619d665ac079c34ad5be902831024b54''"
  by code_simp

lemma digest_x_space_none:
  "sha256_hexdigest (py_encode ''x ::image@none'') =
     ''00dbff8a29fce5667a7ef5e8eeeb8b002bc9ea64839a0d818216848f49ae1abf''"
  by code_simp



lemma fingerprint_x:
  "fingerprint ''image'' ''x'' None =
     ''8edeb33106511b2392c7179912dbe580619d665ac079c34ad5be902831024b54''"
  by (simp add: fingerprint_def cache_key_def prompt_hash_def string_defs digest_x_none)

lemma fingerprint_x_space:
  "fingerprint ''image'' ''x '' None =
     ''00dbff8a29fce5667a7ef5e8eeeb8b002bc9ea64839a0d818216848f49ae1abf''"
  by (simp add: fingerprint_def cache_key_def prompt_hash_def string_defs digest_x_space_none)

lemma fingerprint_X_spaces:
  "fingerprint ''image'' ''X  '' None =
     ''00dbff8a29fce5667a7ef5e8eeeb8b002bc9ea64839a0d818216848f49ae1abf''"
  by (simp add: fingerprint_def cache_key_def prompt_hash_def string_defs digest_x_space_none)

lemma x_world_norow:
  "select_cache (fingerprint ''image'' ''x '' None) (prompt_cache (x_world q)) = None"
  by (simp add: select_cache_def x_world_def example_entry_def fingerprint_x fingerprint_x_space)

lemma tokens_x: "tokens_of ''x'' = {''x''}" "tokens_of ''x '' = {''x''}" "tokens_of ''X  '' = {''x''}"
  by (simp_all add: tokens_of_def string_defs py_split.simps)


lemma tokens_letters:
  "tokens_of letters_x = set [''a'', ''b'', ''c'', ''d'', ''e'', ''f'', ''g'', ''h'', ''i'', ''j'', ''k'', ''l'',
     ''m'', ''n'', ''o'', ''p'', ''q'', ''r'', ''s'', ''t'', ''u'', ''v'', ''w'', ''x'']"
  "tokens_of letters_y = set [''a'', ''b'', ''c'', ''d'', ''e'', ''f'', ''g'', ''h'', ''i'', ''j'', ''k'', ''l'',
     ''m'', ''n'', ''o'', ''p'', ''q'', ''r'', ''s'', ''t'', ''u'', ''v'', ''w'', ''y'']"
  "tokens_of ''b'' = set [''b'']"
  "tokens_of ''a'' = set [''a'']"
  by (simp_all add: tokens_of_def letters_x_def letters_y_def string_defs py_split.simps)

lemma scores_letters:
  "row_score (tokens_of letters_x) letters_row = 23 / 25"
  "row_score (tokens_of letters_x) b_row = 1 / 24"
  "row_score (tokens_of ''a'') b_row = 0"
  unfolding row_score_def jaccard_def letters_row_def b_row_def example_entry_def
  by (simp_all add: tokens_letters card_insert_if)

lemma card_numbers_inter: "card (tokens_of numbers_a \<inter> tokens_of numbers_b) = 91"
  by code_simp

lemma card_numbers_union: "card (tokens_of numbers_a \<union> tokens_of numbers_b) = 100"
  by code_simp

lemma score_numbers: "row_score (tokens_of numbers_a) numbers_row = 91 / 100"
  by (simp add: row_score_def jaccard_def numbers_row_def example_entry_def
      card_numbers_inter card_numbers_union)

lemma tokens_numbers_a: "tokens_of numbers_a \<noteq> {}"
  using card_numbers_inter by auto



section \<open>Exact reuse\<close>

text \<open>
  Claim C1. For a request whose reuse policy is \<open>always\<close> or \<open>smart\<close> and whose
  fingerprint has a cache row, \<open>generate\<close> appends exactly one generation with
  \<open>cache_hit = 1\<close>, the provider stored in the row, duration 0 and the model path of
  the row as \<open>str(Path(...))\<close> prints it, which is the stored text itself in every
  store with the invariant \<open>cache_paths_ok\<close>. No provider is
  called, the cache is left as it was, and replacing the quality scores of the cache by
  any others gives the same ledger.
\<close>

theorem exact_reuse:
  assumes pol: "r_reuse_policy rq = ''always'' \<or> r_reuse_policy rq = ''smart''"
    and row: "select_cache (request_hash e rq) (prompt_cache w) = Some r"
  shows "\<exists>g. generate e rq w = (g_id g, w\<lparr>generations := generations w @ [g]\<rparr>)
           \<and> g_id g = next_id (map g_id (generations w))
           \<and> g_cache_hit g = 1
           \<and> g_model_path g = py_path_str (c_model_path r)
           \<and> (cache_paths_ok w \<longrightarrow> g_model_path g = c_model_path r)
           \<and> g_provider g = c_provider r
           \<and> g_duration_ms g = 0
           \<and> provider_calls (snd (generate e rq w)) = provider_calls w
           \<and> prompt_cache (snd (generate e rq w)) = prompt_cache w
           \<and> (\<forall>q. generations (snd (generate e rq
                      (w\<lparr>prompt_cache := map (\<lambda>x. x\<lparr>c_quality_score := q x\<rparr>) (prompt_cache w)\<rparr>)))
                  = generations w @ [g])"
  using assms by (rule generate_exact)

text \<open>
  The whitespace variant of \<open>a red dragon\<close> under \<open>smart\<close> hits the row of the
  prompt, whose score of 1 does not matter.
\<close>

theorem exact_reuse_witness:
  "g_cache_hit (last (generations (snd (generate env0 (text_request ''a red   dragon '' ''smart'')
       red_dragon_world)))) = 1
   \<and> g_model_path (last (generations (snd (generate env0 (text_request ''a red   dragon '' ''smart'')
       red_dragon_world)))) = ''/srv/app/static/models/8b13e06dabc7_cube.obj''
   \<and> g_duration_ms (last (generations (snd (generate env0 (text_request ''a red   dragon '' ''smart'')
       red_dragon_world)))) = 0
   \<and> provider_calls (snd (generate env0 (text_request ''a red   dragon '' ''smart'')
       red_dragon_world)) = [(''mock'', ''a red dragon'', None)]"
proof -
  let ?rq = "text_request ''a red   dragon '' ''smart''"
  let ?r = "example_entry (fingerprint ''text'' ''a red dragon'' None) ''a red dragon''
              ''/srv/app/static/models/8b13e06dabc7_cube.obj'' (Some 1)"
  have pol: "r_reuse_policy ?rq = ''always'' \<or> r_reuse_policy ?rq = ''smart''"
    by (simp add: text_request_def)
  have h: "request_hash env0 ?rq = fingerprint ''text'' ''a red dragon'' None"
    by (simp add: request_hash_def text_request_def fingerprint_def cache_key_def
        prompt_hash_def string_defs)
  have row: "select_cache (request_hash env0 ?rq) (prompt_cache red_dragon_world) = Some ?r"
    unfolding h by (simp add: select_cache_def red_dragon_world_def example_entry_def)
  have p: "py_path_str (c_model_path ?r) = ''/srv/app/static/models/8b13e06dabc7_cube.obj''"
    by (simp add: example_entry_def py_path_str_def path_root_def)
  from exact_reuse [OF pol row] obtain g where
    g: "generate env0 ?rq red_dragon_world =
          (g_id g, red_dragon_world\<lparr>generations := generations red_dragon_world @ [g]\<rparr>)"
    and f: "g_cache_hit g = 1" "g_model_path g = py_path_str (c_model_path ?r)"
      "g_duration_ms g = 0"
    and c: "provider_calls (snd (generate env0 ?rq red_dragon_world)) =
              provider_calls red_dragon_world"
    by blast
  have l: "last (generations (snd (generate env0 ?rq red_dragon_world))) = g"
    by (simp add: g)
  show ?thesis
    unfolding l c using f p by (simp add: red_dragon_world_def)
qed

text \<open>
  The same request without an upload, sent twice under \<open>always\<close> to a store with the
  invariant: the second generation is an exact reuse with the model path of the first.
\<close>

lemma exact_reuse_idempotent:
  assumes pol: "r_reuse_policy rq = ''always''"
    and up: "stored_upload rq = None"
    and ok: "cache_paths_ok w"
  shows "let w1 = snd (generate e rq w);
             w2 = snd (generate e' rq w1);
             g1 = last (generations w1);
             g2 = last (generations w2)
         in generations w2 = generations w @ [g1, g2]
            \<and> g_cache_hit g2 = 1
            \<and> g_model_path g2 = g_model_path g1
            \<and> g_duration_ms g2 = 0
            \<and> provider_calls w2 = provider_calls w1"
proof -
  have h: "request_hash e' rq = request_hash e rq"
    using up by (rule request_hash_env)
  have pol': "r_reuse_policy rq = ''always'' \<or> r_reuse_policy rq = ''smart''"
    using pol by simp
  obtain r1 where row1: "select_cache (request_hash e' rq) (prompt_cache (snd (generate e rq w))) = Some r1"
    and gens1: "\<exists>g. generations (snd (generate e rq w)) = generations w @ [g]
                  \<and> g_model_path g = c_model_path r1"
  proof (cases "select_cache (request_hash e rq) (prompt_cache w)")
    case None
    let ?out = "mock_out_path (e_model_dir e) (r_prompt rq)"
    let ?r = "\<lparr>c_hash = request_hash e rq, c_prompt = r_prompt rq, c_model_path = ?out,
               c_provider = provider_slug (r_provider rq),
               c_quality_score = (case select_cache (request_hash e rq) (prompt_cache w) of
                                    None \<Rightarrow> None | Some r \<Rightarrow> c_quality_score r),
               c_last_used = e_clock e\<rparr>"
    have "select_cache (request_hash e' rq) (prompt_cache (snd (generate e rq w))) = Some ?r"
      using None pol unfolding h
      by (simp add: generate_def fresh_generation_def record_generation_def smart_match_def Let_def
          select_cache_upsert)
    moreover have "\<exists>g. generations (snd (generate e rq w)) = generations w @ [g]
                  \<and> g_model_path g = c_model_path ?r"
      using None pol
      by (simp add: generate_def fresh_generation_def record_generation_def smart_match_def Let_def)
    ultimately show ?thesis by (rule that)
  next
    case (Some r)
    from generate_exact [OF pol' Some] obtain g where
      g: "generate e rq w = (g_id g, w\<lparr>generations := generations w @ [g]\<rparr>)"
      and p: "cache_paths_ok w \<longrightarrow> g_model_path g = c_model_path r"
      by blast
    have "select_cache (request_hash e' rq) (prompt_cache (snd (generate e rq w))) = Some r"
      unfolding h using Some by (simp add: g)
    moreover have "\<exists>g. generations (snd (generate e rq w)) = generations w @ [g]
                  \<and> g_model_path g = c_model_path r"
      using p ok by (intro exI [of _ g]) (simp add: g)
    ultimately show ?thesis by (rule that)
  qed
  from gens1 obtain g1 where g1: "generations (snd (generate e rq w)) = generations w @ [g1]"
    "g_model_path g1 = c_model_path r1" by blast
  have ok1: "cache_paths_ok (snd (generate e rq w))"
    using ok by (rule generate_keeps_paths)
  from generate_exact [OF pol' row1] obtain g2 where
    g2: "generate e' rq (snd (generate e rq w)) =
           (g_id g2, (snd (generate e rq w))\<lparr>generations := generations (snd (generate e rq w)) @ [g2]\<rparr>)"
    and f2: "g_cache_hit g2 = 1" "g_duration_ms g2 = 0"
      "cache_paths_ok (snd (generate e rq w)) \<longrightarrow> g_model_path g2 = c_model_path r1"
    by blast
  show ?thesis
    unfolding Let_def g2 using f2 ok1 g1 by simp
qed

section \<open>Similar reuse\<close>




text \<open>
  Claim C9. In the gate of the \<open>smart\<close> policy a quality score of exactly 0.0 counts as
  4.0, as \<open>NULL\<close> does: an entry that the scan returns with score 0.0 is reused,
  although 0.0 is below 3.5.
\<close>

theorem zero_score_passes_gate:
  assumes pol: "r_reuse_policy rq = ''smart''"
    and norow: "select_cache (request_hash e rq) (prompt_cache w) = None"
    and sim: "find_similar_prompt (prompt_cache w) (r_prompt rq) (92 / 100) = Some sim"
    and zero: "c_quality_score sim = Some 0"
  shows "\<exists>g. generate e rq w = (g_id g, w\<lparr>generations := generations w @ [g]\<rparr>)
           \<and> g_cache_hit g = 2
           \<and> g_model_path g = py_path_str (c_model_path sim)
           \<and> g_provider g = ''cache-similar''
           \<and> g_duration_ms g = 0
           \<and> or_default (c_quality_score sim) 4 = 4
           \<and> \<not> (35 / 10 \<le> (0 :: real))"
proof -
  let ?g = "\<lparr>g_id = next_id (map g_id (generations w)), g_prompt = r_prompt rq, g_mode = r_mode rq,
             g_image_path = request_image_path e rq, g_provider = ''cache-similar'',
             g_model_path = py_path_str (c_model_path sim), g_status = ''ok'', g_duration_ms = 0,
             g_created_at = e_clock e, g_cache_hit = 2, g_reuse_of = None\<rparr>"
  have "generate e rq w = (g_id ?g, w\<lparr>generations := generations w @ [?g]\<rparr>)"
    using assms
    by (simp add: generate_def record_generation_def Let_def smart_match_def or_default_def)
  then show ?thesis
    using zero by (intro exI [of _ ?g]) (simp add: or_default_def)
qed

theorem zero_score_passes_gate_witness:
  "g_cache_hit (last (generations (snd (generate env0 (image_request ''X  '' ''smart'' None)
       (x_world (Some 0)))))) = 2
   \<and> g_model_path (last (generations (snd (generate env0 (image_request ''X  '' ''smart'' None)
       (x_world (Some 0)))))) = ''/srv/app/static/models/2d711642b726_cube.obj''
   \<and> g_provider (last (generations (snd (generate env0 (image_request ''X  '' ''smart'' None)
       (x_world (Some 0)))))) = ''cache-similar''"
proof -
  let ?rq = "image_request ''X  '' ''smart'' None"
  let ?sim = "example_entry (fingerprint ''image'' ''x'' None) ''x''
             ''/srv/app/static/models/2d711642b726_cube.obj'' (Some 0)"
  have pol: "r_reuse_policy ?rq = ''smart''"
    by (simp add: image_request_def)
  have norow: "select_cache (request_hash env0 ?rq) (prompt_cache (x_world (Some 0))) = None"
    using x_world_norow [of "Some 0"]
    by (simp add: request_hash_no_upload fingerprint_X_spaces fingerprint_x_space)
  have sim: "find_similar_prompt (prompt_cache (x_world (Some 0))) (r_prompt ?rq) (92 / 100) = Some ?sim"
    by (simp add: image_request_def find_similar_prompt_def x_world_def example_entry_def
        tokens_x jaccard_def)
  have zero: "c_quality_score ?sim = Some 0"
    by (simp add: example_entry_def)
  have p: "py_path_str (c_model_path ?sim) = ''/srv/app/static/models/2d711642b726_cube.obj''"
    by (simp add: example_entry_def py_path_str_def path_root_def)
  from zero_score_passes_gate [OF pol norow sim zero] obtain g where
    g: "generate env0 ?rq (x_world (Some 0)) =
          (g_id g, (x_world (Some 0))\<lparr>generations := generations (x_world (Some 0)) @ [g]\<rparr>)"
    and f: "g_cache_hit g = 2" "g_model_path g = py_path_str (c_model_path ?sim)"
      "g_provider g = ''cache-similar''"
    by blast
  have l: "last (generations (snd (generate env0 ?rq (x_world (Some 0))))) = g"
    by (simp add: g)
  show ?thesis
    unfolding l using f p by simp
qed

section \<open>The similarity scan\<close>

text \<open>
  Claim C3, amended. For a query with at least one token the score of a row is the size of
  the intersection of the two token sets over the size of their union. The scan returns a
  row if and only if the query has a token and the row is the first one that reaches the
  largest score of the table, that score is positive and it is at least the threshold. A
  query without a token matches nothing.
\<close>

theorem similarity_scan:
  "(tokens_of p \<noteq> {} \<longrightarrow>
      row_score (tokens_of p) r =
        real (card (tokens_of p \<inter> tokens_of (c_prompt r))) /
        real (card (tokens_of p \<union> tokens_of (c_prompt r))))
   \<and> (tokens_of p = {} \<longrightarrow> find_similar_prompt rows p th = None)
   \<and> (find_similar_prompt rows p th = Some r \<longleftrightarrow>
        tokens_of p \<noteq> {} \<and>
        (\<exists>i<length rows. rows ! i = r \<and>
           0 < row_score (tokens_of p) r \<and> th \<le> row_score (tokens_of p) r \<and>
           (\<forall>k<length rows. row_score (tokens_of p) (rows ! k) \<le> row_score (tokens_of p) r) \<and>
           (\<forall>k<i. row_score (tokens_of p) (rows ! k) < row_score (tokens_of p) r)))"
  using row_score_quotient [of p r] find_similar_prompt_char [of rows p th r]
  by (simp add: find_similar_prompt_def)

text \<open>
  Two prompts with 23 common tokens out of 25 score exactly 0.92, and the row is returned
  at threshold 0.92; two prompts with 91 common tokens out of 100 score 0.91, and nothing
  is returned.
\<close>

theorem similarity_scan_witness:
  "row_score (tokens_of letters_x) letters_row = 92 / 100
   \<and> find_similar_prompt [b_row, letters_row] letters_x (92 / 100) = Some letters_row
   \<and> row_score (tokens_of numbers_a) numbers_row = 91 / 100
   \<and> find_similar_prompt [numbers_row] numbers_a (92 / 100) = None"
proof -
  have ne: "tokens_of letters_x \<noteq> {}"
    by (simp add: tokens_letters)
  have rhs: "\<exists>i<length [b_row, letters_row]. [b_row, letters_row] ! i = letters_row \<and>
           0 < row_score (tokens_of letters_x) letters_row \<and>
           92 / 100 \<le> row_score (tokens_of letters_x) letters_row \<and>
           (\<forall>k<length [b_row, letters_row].
               row_score (tokens_of letters_x) ([b_row, letters_row] ! k)
                 \<le> row_score (tokens_of letters_x) letters_row) \<and>
           (\<forall>k<i. row_score (tokens_of letters_x) ([b_row, letters_row] ! k)
                 < row_score (tokens_of letters_x) letters_row)"
    by (rule exI [of _ 1]) (simp add: scores_letters less_Suc_eq nth_Cons')
  have hit: "find_similar_prompt [b_row, letters_row] letters_x (92 / 100) = Some letters_row"
    using similarity_scan [of letters_x letters_row "[b_row, letters_row]" "92 / 100"] ne rhs
    by blast
  have miss: "find_similar_prompt [numbers_row] numbers_a (92 / 100) \<noteq> Some r" for r
  proof
    assume "find_similar_prompt [numbers_row] numbers_a (92 / 100) = Some r"
    with similarity_scan [of numbers_a r "[numbers_row]" "92 / 100"]
    obtain i where "i < length [numbers_row]" "[numbers_row] ! i = r"
      "92 / 100 \<le> row_score (tokens_of numbers_a) r"
      by blast
    then show False
      by (auto simp: score_numbers)
  qed
  have none: "find_similar_prompt [numbers_row] numbers_a (92 / 100) = None"
  proof (cases "find_similar_prompt [numbers_row] numbers_a (92 / 100)")
    case None
    then show ?thesis .
  next
    case (Some r)
    with miss [of r] show ?thesis by simp
  qed
  show ?thesis
    using hit none by (simp add: scores_letters score_numbers)
qed

text \<open>
  At threshold 0 the only row of the table has the largest score, 0, which is not below
  the threshold; the scan returns nothing.
\<close>

theorem similarity_scan_counterexample:
  "tokens_of ''a'' \<noteq> {}
   \<and> row_score (tokens_of ''a'') b_row = 0
   \<and> (0 :: real) \<le> row_score (tokens_of ''a'') b_row
   \<and> find_similar_prompt [b_row] ''a'' 0 = None"
  by (simp add: scores_letters)
    (simp add: find_similar_prompt_def tokens_letters b_row_def example_entry_def jaccard_def)

section \<open>The cache write\<close>

text \<open>
  Claim C8. When \<open>generate\<close> writes a fresh generation (\<open>cache_hit = 0\<close>), the cache
  afterwards is the old one without the row of the request's fingerprint, followed by a new
  row for it with the new model path and provider and with the quality score that the old
  row had (\<open>NULL\<close> without an old row). When it writes a reuse (\<open>cache_hit\<close> 1 or 2)
  the cache is unchanged.
\<close>

theorem fresh_upsert_keeps_score:
  "(let w' = snd (generate e rq w);
        g = last (generations w');
        h = request_hash e rq
    in (g_cache_hit g = 0 \<longrightarrow>
          prompt_cache w' =
            filter (\<lambda>r. c_hash r \<noteq> h) (prompt_cache w) @
            [\<lparr>c_hash = h, c_prompt = r_prompt rq, c_model_path = g_model_path g,
              c_provider = g_provider g,
              c_quality_score = (case select_cache h (prompt_cache w) of
                                   None \<Rightarrow> None | Some old \<Rightarrow> c_quality_score old),
              c_last_used = e_clock e\<rparr>])
     \<and> (g_cache_hit g \<noteq> 0 \<longrightarrow> prompt_cache w' = prompt_cache w)
     \<and> g_cache_hit g \<in> {0, 1, 2})"
  by (simp add: generate_def record_generation_def fresh_generation_def upsert_cache_def Let_def
      split: option.split)

text \<open>
  Under \<open>never\<close> the row of prompt \<open>x\<close> is replaced, moves behind the other row and
  keeps its score of 5; under \<open>always\<close> the cache stays as it is.
\<close>

theorem fresh_upsert_keeps_score_witness:
  "prompt_cache (snd (generate env0 (image_request ''x'' ''never'' None) two_row_world)) =
     [example_entry (fingerprint ''image'' ''x '' None) ''x ''
        ''/srv/app/static/models/2ac3e029f2ae_cube.obj'' None,
      \<lparr>c_hash = fingerprint ''image'' ''x'' None, c_prompt = ''x'',
        c_model_path = mock_out_path ''/srv/app/static/models'' ''x'', c_provider = ''mock'',
        c_quality_score = Some 5, c_last_used = 1730000000\<rparr>]
   \<and> prompt_cache (snd (generate env0 (image_request ''x'' ''always'' None) two_row_world)) =
       prompt_cache two_row_world"
proof -
  let ?never = "image_request ''x'' ''never'' None"
  let ?always = "image_request ''x'' ''always'' None"
  have sel: "select_cache (fingerprint ''image'' ''x'' None) (prompt_cache two_row_world) =
      Some (example_entry (fingerprint ''image'' ''x'' None) ''x''
              ''/srv/app/static/models/2d711642b726_cube.obj'' (Some 5))"
    by (simp add: select_cache_def two_row_world_def example_entry_def)
  have hit0: "g_cache_hit (last (generations (snd (generate env0 ?never two_row_world)))) = 0"
    and path: "g_model_path (last (generations (snd (generate env0 ?never two_row_world)))) =
                 mock_out_path ''/srv/app/static/models'' ''x''"
    and prov: "g_provider (last (generations (snd (generate env0 ?never two_row_world)))) = ''mock''"
    by (simp_all add: gen_defs image_request_def env0_def provider_slug_def)
  have hit1: "g_cache_hit (last (generations (snd (generate env0 ?always two_row_world)))) = 1"
    by (simp add: gen_defs request_hash_no_upload sel) (simp add: image_request_def)
  have flt: "filter (\<lambda>r. c_hash r \<noteq> fingerprint ''image'' ''x'' None) (prompt_cache two_row_world) =
      [example_entry (fingerprint ''image'' ''x '' None) ''x ''
        ''/srv/app/static/models/2ac3e029f2ae_cube.obj'' None]"
    by (simp add: two_row_world_def example_entry_def fingerprint_x fingerprint_x_space)
  have fresh: "prompt_cache (snd (generate env0 ?never two_row_world)) =
     [example_entry (fingerprint ''image'' ''x '' None) ''x ''
        ''/srv/app/static/models/2ac3e029f2ae_cube.obj'' None,
      \<lparr>c_hash = fingerprint ''image'' ''x'' None, c_prompt = ''x'',
        c_model_path = mock_out_path ''/srv/app/static/models'' ''x'', c_provider = ''mock'',
        c_quality_score = Some 5, c_last_used = 1730000000\<rparr>]"
    using fresh_upsert_keeps_score [of env0 ?never two_row_world] hit0
    unfolding Let_def request_hash_no_upload path prov sel flt
    by (simp add: image_request_def env0_def example_entry_def)
  have reuse: "prompt_cache (snd (generate env0 ?always two_row_world)) = prompt_cache two_row_world"
    using fresh_upsert_keeps_score [of env0 ?always two_row_world] hit1
    unfolding Let_def by simp
  show ?thesis
    using fresh reuse by simp
qed

section \<open>Feedback\<close>

text \<open>
  Claim C4. When feedback is given for an existing generation and all ratings are at least
  1, the quality score written is the mean rating of all feedback rows, the new one
  included, that belong to a generation with the same prompt text as the rated one, and it
  is written to the cache rows whose hash is the fingerprint of the rated generation; all
  other cache rows are unchanged.
\<close>

theorem feedback_mean_written:
  assumes g: "select_generation gen_id (generations w) = Some g"
    and old: "\<forall>f \<in> set (feedbacks w). 1 \<le> f_rating f"
    and new: "1 \<le> rating"
  shows "(let w' = snd (feedback e gen_id rating issues comment w);
              pool = map f_rating
                       (filter (\<lambda>f. \<exists>x \<in> set (generations w).
                                       g_prompt x = g_prompt g \<and> f_generation_id f = g_id x)
                          (feedbacks w'));
              mean = real_of_int (sum_list pool) / real (length pool);
              h = fingerprint (g_mode g) (g_prompt g) (g_image_path g)
          in pool \<noteq> [] \<and> 1 \<le> mean
             \<and> generations w' = generations w
             \<and> feedbacks w' = feedbacks w @
                  [\<lparr>f_id = next_id (map f_id (feedbacks w)), f_generation_id = gen_id,
                    f_rating = rating, f_issues = issues, f_comment = py_strip comment,
                    f_created_at = e_clock e\<rparr>]
             \<and> prompt_cache w' =
                  map (\<lambda>r. if c_hash r = h then r\<lparr>c_quality_score := Some mean\<rparr> else r)
                    (prompt_cache w))"
proof -
  define row where "row = \<lparr>f_id = next_id (map f_id (feedbacks w)), f_generation_id = gen_id,
                    f_rating = rating, f_issues = issues, f_comment = py_strip comment,
                    f_created_at = e_clock e\<rparr>"
  define P :: "feedback_row \<Rightarrow> bool" where "P = (\<lambda>f. \<exists>x \<in> set (generations w).
                              g_prompt x = g_prompt g \<and> f_generation_id f = g_id x)"
  define pool where "pool = map f_rating (filter P (feedbacks w @ [row]))"
  define mean where "mean = real_of_int (sum_list pool) / real (length pool)"
  define h where "h = fingerprint (g_mode g) (g_prompt g) (g_image_path g)"
  from g have gin: "g \<in> set (generations w)" and gid: "g_id g = gen_id"
    by (auto dest: select_generation_Some)
  have rid: "f_generation_id row = gen_id" and rrat: "f_rating row = rating"
    by (simp_all add: row_def)
  have Prow: "P row"
    unfolding P_def by (rule bexI [of _ g]) (simp_all add: gin gid rid)
  then have ne: "pool \<noteq> []"
    by (simp add: pool_def)
  have "\<forall>x \<in> set pool. 1 \<le> x"
    using old new rrat by (auto simp: pool_def)
  then have "int (length pool) \<le> sum_list pool"
    by (rule sum_list_ge_length)
  then have "real_of_int (int (length pool)) \<le> real_of_int (sum_list pool)"
    by (simp only: of_int_le_iff)
  then have le: "real (length pool) \<le> real_of_int (sum_list pool)"
    by simp
  have pos: "0 < real (length pool)"
    using ne by simp
  from le pos have mean1: "1 \<le> mean"
    by (simp add: mean_def le_divide_eq)
  have ids: "(\<lambda>f. f_generation_id f \<in>
                 set (map g_id (filter (\<lambda>x. g_prompt x = g_prompt g) (generations w)))) = P"
    unfolding P_def by (rule ext) (auto simp: image_iff)
  have g1: "generations (w\<lparr>feedbacks := feedbacks w @ [row]\<rparr>) = generations w"
    and f1: "feedbacks (w\<lparr>feedbacks := feedbacks w @ [row]\<rparr>) = feedbacks w @ [row]"
    and c1: "prompt_cache (w\<lparr>feedbacks := feedbacks w @ [row]\<rparr>) = prompt_cache w"
    by simp_all
  have avg: "avg_rating pool = Some mean"
    using ne by (simp add: avg_rating_def mean_def)
  have m0: "mean \<noteq> 0"
    using mean1 by simp
  have fb: "feedback e gen_id rating issues comment w =
      (gen_id, w\<lparr>feedbacks := feedbacks w @ [row],
                 prompt_cache := map (\<lambda>r. if c_hash r = h
                                          then r\<lparr>c_quality_score := Some mean\<rparr> else r)
                                   (prompt_cache w)\<rparr>)"
    unfolding feedback_def Let_def row_def [symmetric]
    by (simp only: g option.case g1 f1 c1 ids pool_def [symmetric] avg h_def [symmetric] m0
        if_False)
  define w2 where "w2 = w\<lparr>feedbacks := feedbacks w @ [row],
                 prompt_cache := map (\<lambda>r. if c_hash r = h
                                          then r\<lparr>c_quality_score := Some mean\<rparr> else r)
                                   (prompt_cache w)\<rparr>"
  have r1: "generations w2 = generations w"
    and r2: "feedbacks w2 = feedbacks w @ [row]"
    and r3: "prompt_cache w2 = map (\<lambda>r. if c_hash r = h
                                          then r\<lparr>c_quality_score := Some mean\<rparr> else r)
                                   (prompt_cache w)"
    by (simp_all add: w2_def)
  show ?thesis
    unfolding Let_def fb snd_conv row_def [symmetric] w2_def [symmetric]
    by (simp only: r1 r2 r3 P_def [symmetric] pool_def [symmetric] mean_def [symmetric]
        h_def [symmetric] ne mean1 not_False_eq_True simp_thms)
qed

text \<open>
  Ratings 5 and 3 for the two generations of prompt \<open>dragon\<close> leave 4.0 in its cache
  row.
\<close>

theorem feedback_mean_written_witness:
  "prompt_cache (snd (feedback env0 2 3 [] [] dragon_world)) =
     [example_entry (fingerprint ''text'' ''dragon'' None) ''dragon''
        ''/srv/app/static/models/a9c43be948c5_cube.obj'' (Some 4)]"
proof -
  let ?g = "example_generation 2 ''text'' ''dragon''
              ''/srv/app/static/models/a9c43be948c5_cube.obj'' 0 1"
  have g: "select_generation 2 (generations dragon_world) = Some ?g"
    by (simp add: select_generation_def dragon_world_def example_generation_def)
  have old: "\<forall>f \<in> set (feedbacks dragon_world). 1 \<le> f_rating f"
    by (simp add: dragon_world_def)
  have new: "(1::int) \<le> 3"
    by simp
  have gs: "g_mode ?g = ''text''" "g_prompt ?g = ''dragon''" "g_image_path ?g = None"
    by (simp_all add: example_generation_def)
  show ?thesis
    using feedback_mean_written [OF g old new, of env0 "[]" "[]"]
    unfolding Let_def gs
    by (simp add: dragon_world_def example_generation_def example_entry_def feedback_def
        next_id_def py_strip_def)
qed




section \<open>Fingerprints\<close>

text \<open>
  Claim C6. Two prompts with the same normal form are to have the same fingerprint. In
  mode \<open>text\<close> they have (\<open>fingerprint_text_deterministic\<close>). In every other mode
  line 175 appends the image suffix before the text is normalised, so that white space at
  the end of the prompt is no longer at the end: the prompts \<open>x\<close> and \<open>x\<close> with a
  trailing space have the same normal form and the same fingerprint in mode \<open>text\<close>,
  and different fingerprints in mode \<open>image\<close>.
\<close>

theorem trailing_space_changes_image_fingerprint:
  "normalize_prompt ''x'' = normalize_prompt ''x ''
   \<and> fingerprint ''text'' ''x'' None = fingerprint ''text'' ''x '' None
   \<and> fingerprint ''image'' ''x'' None \<noteq> fingerprint ''image'' ''x '' None"
  by (simp add: fingerprint_x fingerprint_x_space)
    (simp add: fingerprint_def cache_key_def prompt_hash_def string_defs)

text \<open>
  Claim C10. For every prompt \<open>p\<close>, a request in mode \<open>text\<close> with prompt
  \<open>p + "::image@none"\<close> has the fingerprint of a request in mode \<open>image\<close> with
  prompt \<open>p\<close> and no stored upload.
\<close>

theorem cross_mode_collision:
  "fingerprint ''text'' (p @ ''::image@none'') None = fingerprint ''image'' p None
   \<and> (r_mode rt = ''text'' \<longrightarrow> r_prompt rt = r_prompt ri @ ''::image@none'' \<longrightarrow>
      r_mode ri = ''image'' \<longrightarrow> stored_upload ri = None \<longrightarrow>
      request_hash e rt = request_hash e ri)"
  by (simp add: fingerprint_def cache_key_def request_hash_def request_image_path_def
      stored_upload_def)

text \<open>
  The text request \<open>x::image@none\<close> under \<open>always\<close> is served from the row that an
  image request \<open>x\<close> has left.
\<close>

theorem cross_mode_collision_witness:
  "request_hash env0 (text_request ''x::image@none'' ''always'') =
     request_hash env0 (image_request ''x'' ''always'' None)
   \<and> g_cache_hit (last (generations (snd (generate env0 (text_request ''x::image@none'' ''always'')
        (x_world None))))) = 1"
proof -
  let ?rt = "text_request ''x::image@none'' ''always''"
  let ?ri = "image_request ''x'' ''always'' None"
  have h: "request_hash env0 ?rt = request_hash env0 ?ri"
    using cross_mode_collision [of "''x''" ?rt ?ri env0]
    by (simp add: text_request_def image_request_def stored_upload_def)
  have sel: "select_cache (request_hash env0 ?ri) (prompt_cache (x_world None)) =
      Some (example_entry (fingerprint ''image'' ''x'' None) ''x''
              ''/srv/app/static/models/2d711642b726_cube.obj'' None)"
    by (simp add: request_hash_no_upload select_cache_def x_world_def example_entry_def)
  have pol: "r_reuse_policy ?rt = ''always''"
    by (simp add: text_request_def)
  have "g_cache_hit (last (generations (snd (generate env0 ?rt (x_world None))))) = 1"
    by (simp add: generate_def record_generation_def Let_def h sel pol)
  with h show ?thesis by simp
qed

text \<open>
  A digest of 64 hexadecimal digits cannot tell all images apart: among the base names
  \<open>a\<close>, \<open>aa\<close>, \<open>aaa\<close>, ... two give different texts to hash and the same
  fingerprint.
\<close>

lemma normalize_image_key_a:
  "normalize_prompt (cache_key ''image'' ''x'' (Some (CHR ''a'' # replicate n CHR ''a''))) =
     ''x::image@a'' @ replicate n CHR ''a''"
proof -
  have b: "basename (CHR ''a'' # replicate n CHR ''a'') = CHR ''a'' # replicate n CHR ''a''"
    by (simp add: basename_def takeWhile_eq_all_conv [THEN iffD2])
  have "normalize_prompt ((''x::image@a'' @ replicate n CHR ''a'') @ []) =
     (''x::image@a'' @ replicate n CHR ''a'') @
       re_sub_ws (map py_lower (rev (dropWhile is_space (rev []))))"
    by (rule normalize_prefix) (auto simp: char_defs)
  then show ?thesis
    by (simp add: cache_key_def b)
qed

lemma fingerprint_not_injective:
  "\<exists>a b. normalize_prompt (cache_key ''image'' ''x'' (Some a)) \<noteq>
           normalize_prompt (cache_key ''image'' ''x'' (Some b))
         \<and> fingerprint ''image'' ''x'' (Some a) = fingerprint ''image'' ''x'' (Some b)"
proof -
  let ?ref = "\<lambda>n. CHR ''a'' # replicate n CHR ''a''"
  let ?f = "\<lambda>n :: nat. fingerprint ''image'' ''x'' (Some (?ref n))"
  have "range ?f \<subseteq> range sha256_hexdigest"
    by (auto simp: fingerprint_def prompt_hash_def)
  then have "finite (range ?f)"
    using finite_digests by (rule finite_subset)
  then have "\<not> inj ?f"
    using finite_imageD infinite_UNIV_nat by blast
  then obtain m n where mn: "m \<noteq> n" "?f m = ?f n"
    by (auto simp: inj_on_def)
  have "normalize_prompt (cache_key ''image'' ''x'' (Some (?ref m))) \<noteq>
        normalize_prompt (cache_key ''image'' ''x'' (Some (?ref n)))"
    unfolding normalize_image_key_a using mn(1) by (simp add: replicate_eq_replicate)
  with mn(2) show ?thesis by blast
qed




end
